theory Spec2Isabelle
  imports Complex_Main "HOL-Library.AList"
begin

section \<open>The voting session of useVotingSession.ts\<close>

text \<open>
  The hook keeps one \<open>VotingState\<close> in a reducer. Three sources dispatch actions
  into it: the bootstrap loader, the real-time handlers and \<open>castVote\<close>. The
  reducer and \<open>derivePercentages\<close> are pure and are translated as they stand; the
  asynchronous functions are translated to the list of actions they dispatch, as a
  function of what their awaited calls returned.
\<close>

subsection \<open>Types\<close>

text \<open>
  Both interfaces have fields \<open>id\<close> and \<open>created_at\<close>; the record fields carry
  the interface name as a prefix.
\<close>

record Van =
  Van_id :: string
  Van_poll_id :: string
  Van_name :: string
  Van_description :: "string option"
  Van_image_url :: "string option"
  Van_created_at :: string

record Poll =
  Poll_id :: string
  Poll_title :: string
  Poll_month_year :: string
  Poll_is_active :: bool
  Poll_created_by :: "string option"
  Poll_created_at :: string

text \<open>
  \<open>VoteCounts\<close> is \<open>Record<string, number>\<close>: an object used as a dictionary. It
  is an association list in insertion order, which is the order \<open>Object.values\<close> and
  \<open>Object.entries\<close> walk it in (keys that look like array indices come first
  in JavaScript; nothing below depends on the order); an object never holds a key twice, so the lists
  that stand for objects have distinct keys. The numbers stored are vote tallies:
  integers, far below \<open>2 ^ 53\<close>, on which the \<open>+\<close> and \<open>Math.max\<close> of
  JavaScript are exact. They are \<open>int\<close> here, and a \<open>number\<close> is such an integer
  or \<open>NaN\<close>, which the arithmetic of JavaScript returns where it has no number
  to return.
\<close>

datatype number = Num int | NaN

type_synonym VoteCounts = "(string \<times> number) list"

datatype VotingStatus = Idle | Submitting | Voted | Error

record VotingState =
  poll :: "Poll option"
  vans :: "Van list"
  voteCounts :: VoteCounts
  userVanId :: "string option"
  totalVotes :: number
  percentages :: "(string \<times> number) list"
  status :: VotingStatus
  error :: "string option"
  isLoadingPoll :: bool
  isLoadingCounts :: bool

text \<open>The field \<open>delta: 1 | -1\<close> of \<open>COUNT_UPDATED\<close> has two values only.\<close>

datatype Delta = Plus1 | Minus1

fun delta_value :: "Delta \<Rightarrow> int" where
  "delta_value Plus1 = 1"
| "delta_value Minus1 = - 1"

datatype Action =
    POLL_LOADED Poll "Van list"
  | COUNTS_LOADED VoteCounts
  | USER_VOTE_LOADED "string option"
  | COUNT_UPDATED string Delta
  | POLL_REPLACED Poll "Van list"
  | SUBMITTING
  | VOTE_SUCCESS string
  | VOTE_ERROR string
  | CLEAR_ERROR
  | NO_ACTIVE_POLL

subsection \<open>Numbers\<close>

text \<open>
  A JavaScript number is an IEEE 754 double. The tallies are integers and stay exact,
  but \<open>n / total\<close> and the product with 100 are not: each operation returns the
  double nearest to the exact result, ties going to the even significand. A finite
  double is a rational number, and \<open>rnd64\<close> rounds a rational to 53 significant
  bits (the normal range: the quotients and products formed here lie well inside
  it); \<open>fdiv\<close> and \<open>fmul\<close> are the operators \<open>/\<close> and \<open>*\<close> on doubles.
  \<open>bit_length n\<close> is the number of binary digits of a positive integer, and
  \<open>ilog2 x\<close> the exponent \<open>e\<close> with \<open>2 ^ e \<le> x < 2 ^ (e + 1)\<close> of a positive
  rational.
\<close>

function bit_length :: "int \<Rightarrow> int" where
  "bit_length n = (if n \<le> 0 then 0 else 1 + bit_length (n div 2))"
  by pat_completeness auto
termination
  by (relation "measure nat") auto

declare bit_length.simps [simp del]

definition ilog2 :: "rat \<Rightarrow> int" where
  "ilog2 x =
     (let (p, q) = quotient_of x;
          d = bit_length p - bit_length q
      in if 2 powi d \<le> x then d else d - 1)"

definition round_half_even :: "rat \<Rightarrow> int" where
  "round_half_even x =
     (let f = \<lfloor>x\<rfloor>; r = x - of_int f
      in if r < 1 / 2 then f
         else if 1 / 2 < r then f + 1
         else if even f then f else f + 1)"

definition rnd64 :: "rat \<Rightarrow> rat" where
  "rnd64 x =
     (if x = 0 then 0
      else let e = ilog2 \<bar>x\<bar> - 52
           in of_int (round_half_even (x / 2 powi e)) * 2 powi e)"

definition fdiv :: "rat \<Rightarrow> rat \<Rightarrow> rat" where
  "fdiv a b = rnd64 (a / b)"

definition fmul :: "rat \<Rightarrow> rat \<Rightarrow> rat" where
  "fmul a b = rnd64 (a * b)"

text \<open>
  \<open>Math.round\<close> returns the nearest integer, and the larger one of the two
  when the argument lies halfway between them.
\<close>

definition Math_round :: "rat \<Rightarrow> int" where
  "Math_round x = \<lfloor>x + 1 / 2\<rfloor>"

text \<open>The sum of two numbers is \<open>NaN\<close> as soon as one of them is.\<close>

fun num_plus :: "number \<Rightarrow> number \<Rightarrow> number" where
  "num_plus (Num a) (Num b) = Num (a + b)"
| "num_plus (Num a) NaN = NaN"
| "num_plus NaN b = NaN"

subsection \<open>Objects as dictionaries\<close>

text \<open>
  \<open>obj[k] = v\<close> and \<open>{...obj, [k]: v}\<close> overwrite the value of a key that is
  there, in its place, and add a new key at the end: \<open>AList.update\<close>.

  Reading \<open>obj[k]\<close> finds the entry of the object itself when there is one.
  When there is none the read goes on to the prototype of the object, which for
  every dictionary of the hook is \<open>Object.prototype\<close>: under the names below it
  finds a function (under \<open>__proto__\<close> the prototype itself), and under every
  other name nothing, which is \<open>undefined\<close>.
\<close>

definition Object_prototype_keys :: "string list" where
  "Object_prototype_keys =
     [''constructor'', ''__defineGetter__'', ''__defineSetter__'', ''hasOwnProperty'',
      ''__lookupGetter__'', ''__lookupSetter__'', ''isPrototypeOf'',
      ''propertyIsEnumerable'', ''toString'', ''valueOf'', ''__proto__'',
      ''toLocaleString'']"

text \<open>
  The values that the expression \<open>Math.max(0, (obj[k] ?? 0) + delta)\<close> passes
  through: \<open>undefined\<close>, a number, an object (a function is one) and a string.
  The only strings are those that \<open>+\<close> makes of an object and a number, such as
  \<open>function Object() { [native code] }1\<close>; none of them reads as a number.
\<close>

datatype js_value = Undefined | Number number | Object | Text

definition read_property :: "VoteCounts \<Rightarrow> string \<Rightarrow> js_value" where
  "read_property obj k =
     (case map_of obj k of
        Some v \<Rightarrow> Number v
      | None \<Rightarrow> if k \<in> set Object_prototype_keys then Object else Undefined)"

text \<open>\<open>v ?? 0\<close> is 0 when \<open>v\<close> is \<open>undefined\<close> (or \<open>null\<close>) and \<open>v\<close> otherwise.\<close>

fun or_zero :: "js_value \<Rightarrow> js_value" where
  "or_zero Undefined = Number (Num 0)"
| "or_zero v = v"

text \<open>
  \<open>v + d\<close> for a number \<open>d\<close>: the sum of two numbers; \<open>NaN\<close> for
  \<open>undefined\<close>; and for an object or a string the concatenation of two strings.
\<close>

fun js_plus :: "js_value \<Rightarrow> number \<Rightarrow> js_value" where
  "js_plus (Number a) d = Number (num_plus a d)"
| "js_plus Undefined d = Number NaN"
| "js_plus Object d = Text"
| "js_plus Text d = Text"

text \<open>
  \<open>Math.max(0, v)\<close> converts \<open>v\<close> to a number, which is \<open>NaN\<close> for
  \<open>undefined\<close>, for a function and for the strings above, and returns \<open>NaN\<close>
  when that number is \<open>NaN\<close>.
\<close>

fun Math_max_zero :: "js_value \<Rightarrow> number" where
  "Math_max_zero (Number (Num n)) = Num (max 0 n)"
| "Math_max_zero (Number NaN) = NaN"
| "Math_max_zero Undefined = NaN"
| "Math_max_zero Object = NaN"
| "Math_max_zero Text = NaN"

text \<open>
  A string used as a condition is true unless it is empty, and \<open>null\<close> is false.
\<close>

fun truthy :: "string option \<Rightarrow> bool" where
  "truthy None = False"
| "truthy (Some s) = (s \<noteq> [])"

subsection \<open>The reducer\<close>

text \<open>
  \<open>derivePercentages\<close> returns the object \<open>{ percentages, totalVotes }\<close>, here
  the pair of the two. The sum is the left fold of \<open>reduce\<close>, and the loop over
  \<open>Object.entries\<close> assigns one key of the result after the other. (\<open>total\<close>
  is a constant of HOL; the local variable of that name is \<open>tot\<close>.)
\<close>

text \<open>
  \<open>percentage tot n\<close> is the value that the loop assigns for an entry with the
  count \<open>n\<close>: \<open>total === 0 ? 0 : Math.round((n / total) * 100)\<close>. A total that
  is \<open>NaN\<close> is not 0, and the quotient, the product and the rounding of
  \<open>NaN\<close> are \<open>NaN\<close>.
\<close>

fun percentage :: "number \<Rightarrow> number \<Rightarrow> number" where
  "percentage (Num tot) (Num n) =
     (if tot = 0 then Num 0
      else Num (Math_round (fmul (fdiv (of_int n) (of_int tot)) 100)))"
| "percentage (Num tot) NaN = (if tot = 0 then Num 0 else NaN)"
| "percentage NaN n = NaN"

definition derivePercentages :: "VoteCounts \<Rightarrow> (string \<times> number) list \<times> number" where
  "derivePercentages counts =
     (let tot = foldl (\<lambda>s n. num_plus s n) (Num 0) (map snd counts);
          percentages = foldl (\<lambda>p (k, n). AList.update k (percentage tot n) p) [] counts
      in (percentages, tot))"

definition initialState :: VotingState where
  "initialState =
     \<lparr> poll = None, vans = [], voteCounts = [], userVanId = None, totalVotes = Num 0,
       percentages = [], status = Idle, error = None,
       isLoadingPoll = True, isLoadingCounts = True \<rparr>"

fun reducer :: "VotingState \<Rightarrow> Action \<Rightarrow> VotingState" where
  "reducer state (POLL_LOADED p vs) =
     state\<lparr> poll := Some p, vans := vs, isLoadingPoll := False \<rparr>"
| "reducer state NO_ACTIVE_POLL =
     state\<lparr> poll := None, vans := [], voteCounts := [],
            isLoadingPoll := False, isLoadingCounts := False \<rparr>"
| "reducer state (COUNTS_LOADED counts) =
     (let (percentages, totalVotes) = derivePercentages counts
      in state\<lparr> voteCounts := counts, percentages := percentages,
                totalVotes := totalVotes, isLoadingCounts := False \<rparr>)"
| "reducer state (USER_VOTE_LOADED vanId) =
     state\<lparr> userVanId := vanId, status := (if truthy vanId then Voted else Idle) \<rparr>"
| "reducer state (COUNT_UPDATED vanId delta) =
     (let updated = AList.update vanId
            (Math_max_zero
               (js_plus (or_zero (read_property (voteCounts state) vanId))
                  (Num (delta_value delta))))
            (voteCounts state);
          (percentages, totalVotes) = derivePercentages updated
      in state\<lparr> voteCounts := updated, percentages := percentages,
                totalVotes := totalVotes \<rparr>)"
| "reducer state (POLL_REPLACED p vs) =
     state\<lparr> poll := Some p, vans := vs, voteCounts := [], percentages := [],
            totalVotes := Num 0, userVanId := None, status := Idle,
            isLoadingCounts := True \<rparr>"
| "reducer state SUBMITTING = state\<lparr> status := Submitting, error := None \<rparr>"
| "reducer state (VOTE_SUCCESS vanId) = state\<lparr> status := Voted, userVanId := Some vanId \<rparr>"
| "reducer state (VOTE_ERROR e) = state\<lparr> status := Error, error := Some e \<rparr>"
| "reducer state CLEAR_ERROR = state\<lparr> status := Idle, error := None \<rparr>"

text \<open>
  \<open>dispatch\<close> hands one action to the reducer; a function that dispatches several
  actions leaves the state that the reducer reaches through all of them in order.
\<close>

definition dispatchAll :: "VotingState \<Rightarrow> Action list \<Rightarrow> VotingState" where
  "dispatchAll state actions = foldl reducer state actions"

subsection \<open>What the awaited calls return\<close>

text \<open>
  Every Supabase call resolves to an object \<open>{ data, error }\<close>, either field of
  which may be \<open>null\<close>; the error has a \<open>message\<close>. The \<open>cast_vote\<close> procedure
  answers with a payload that carries an \<open>error\<close> string when a business rule
  rejected the vote. The rows of \<open>vote_counts\<close> are selected with the two columns
  \<open>van_id\<close> and \<open>total_votes\<close>.
\<close>

record PostgrestError =
  message :: string

record 'a Response =
  res_data :: "'a option"
  res_error :: "PostgrestError option"

record RpcPayload =
  payload_error :: "string option"

record VoteCountRow =
  van_id :: string
  total_votes :: int

subsection \<open>castVote\<close>

text \<open>
  \<open>castVote\<close> dispatches \<open>SUBMITTING\<close>, awaits the procedure call and
  dispatches one more action, which depends on the response. \<open>data?.error\<close> is
  the error string of the payload when there is a payload, and it counts when it is
  not empty.
\<close>

definition embedded_error :: "RpcPayload Response \<Rightarrow> string option" where
  "embedded_error res =
     (case res_data res of None \<Rightarrow> None | Some d \<Rightarrow> payload_error d)"

definition castVote :: "string \<Rightarrow> RpcPayload Response \<Rightarrow> Action list" where
  "castVote vanId res =
     SUBMITTING #
     (case res_error res of
        Some e \<Rightarrow> [VOTE_ERROR (message e)]
      | None \<Rightarrow>
          (case embedded_error res of
             Some m \<Rightarrow> (if truthy (Some m) then [VOTE_ERROR m] else [VOTE_SUCCESS vanId])
           | None \<Rightarrow> [VOTE_SUCCESS vanId]))"

subsection \<open>The handler of changes to the vans table\<close>

text \<open>
  The handler reads the poll on display from \<open>pollRef\<close>, which holds the
  \<open>poll\<close> of the state, fetches the vans of that poll again and dispatches when
  the fetch returned a list.
\<close>

definition vansChanged :: "Poll option \<Rightarrow> Van list Response \<Rightarrow> Action list" where
  "vansChanged currentPoll res =
     (case currentPoll of
        None \<Rightarrow> []
      | Some p \<Rightarrow>
          (case res_data res of
             None \<Rightarrow> []
           | Some vs \<Rightarrow> [POLL_REPLACED p vs]))"

definition onVansChange :: "VotingState \<Rightarrow> Van list Response \<Rightarrow> VotingState" where
  "onVansChange state res = dispatchAll state (vansChanged (poll state) res)"

subsection \<open>bootstrap\<close>

text \<open>
  One run of \<open>bootstrap\<close> awaits up to five calls. The run is described by what
  each call resolved to and by the moment of the teardown, if there was one:
  \<open>cancelledDuring = Some k\<close> says that \<open>cancelled\<close> was set while the \<open>k\<close>-th
  call was awaited, so that every check from the one after that call on finds it
  set. \<open>user\<close> is the id of the signed-in user and \<open>existingVote\<close> the
  \<open>van_id\<close> of the vote found for that user.
\<close>

record BootstrapRun =
  pollRes :: "Poll Response"
  vansRes :: "Van list Response"
  countsRes :: "VoteCountRow list Response"
  user :: "string option"
  existingVote :: "string option"
  cancelledDuring :: "nat option"

definition cancelled :: "BootstrapRun \<Rightarrow> nat \<Rightarrow> bool" where
  "cancelled run i = (case cancelledDuring run of None \<Rightarrow> False | Some k \<Rightarrow> k \<le> i)"

definition or_empty :: "'a list option \<Rightarrow> 'a list" where
  "or_empty xs = (case xs of None \<Rightarrow> [] | Some ys \<Rightarrow> ys)"

definition seedCounts :: "Van list \<Rightarrow> VoteCountRow list \<Rightarrow> VoteCounts" where
  "seedCounts vs rows =
     foldl (\<lambda>counts r. AList.update (van_id r) (Num (total_votes r)) counts)
       (foldl (\<lambda>counts v. AList.update (Van_id v) (Num 0) counts) [] vs) rows"

definition bootstrap :: "BootstrapRun \<Rightarrow> Action list" where
  "bootstrap run =
     (if cancelled run 1 then []
      else if res_error (pollRes run) \<noteq> None then [NO_ACTIVE_POLL]
      else case res_data (pollRes run) of
        None \<Rightarrow> [NO_ACTIVE_POLL]
      | Some p \<Rightarrow>
          if cancelled run 2 then []
          else if res_error (vansRes run) \<noteq> None then []
          else POLL_LOADED p (or_empty (res_data (vansRes run))) #
            (if cancelled run 3 then []
             else
               (case (res_error (countsRes run), res_data (countsRes run)) of
                  (None, Some rows) \<Rightarrow>
                    [COUNTS_LOADED (seedCounts (or_empty (res_data (vansRes run))) rows)]
                | _ \<Rightarrow> []) @
               (if cancelled run 4 \<or> user run = None then []
                else if cancelled run 5 then []
                else [USER_VOTE_LOADED (existingVote run)])))"

subsection \<open>Sample data\<close>

text \<open>A poll of May 2024 with two vans, and a bootstrap run whose fetch of the vans fails.\<close>

definition pollP :: Poll where
  "pollP = \<lparr> Poll_id = ''p1'', Poll_title = ''May'', Poll_month_year = ''2024-05'',
     Poll_is_active = True, Poll_created_by = None, Poll_created_at = ''t0'' \<rparr>"

definition vanA :: Van where
  "vanA = \<lparr> Van_id = ''van-a'', Van_poll_id = ''p1'', Van_name = ''Tacos'',
     Van_description = None, Van_image_url = None, Van_created_at = ''t1'' \<rparr>"

definition vanB :: Van where
  "vanB = \<lparr> Van_id = ''van-b'', Van_poll_id = ''p1'', Van_name = ''Pizza'',
     Van_description = None, Van_image_url = None, Van_created_at = ''t2'' \<rparr>"

definition runVansFail :: BootstrapRun where
  "runVansFail =
     \<lparr> pollRes = \<lparr> res_data = Some pollP, res_error = None \<rparr>,
       vansRes = \<lparr> res_data = None, res_error = Some \<lparr> message = ''timeout'' \<rparr> \<rparr>,
       countsRes = \<lparr> res_data = Some [], res_error = None \<rparr>,
       user = None, existingVote = None, cancelledDuring = None \<rparr>"

subsection \<open>Derived fields\<close>

text \<open>
  \<open>percentages\<close> and \<open>totalVotes\<close> are meant to be what \<open>derivePercentages\<close>
  makes of \<open>voteCounts\<close>.
\<close>

definition derived_from_counts :: "VotingState \<Rightarrow> bool" where
  "derived_from_counts state =
     ((percentages state, totalVotes state) = derivePercentages (voteCounts state))"

subsection \<open>Counts that are not negative\<close>

text \<open>
  A number is not negative when \<open>0 <= n\<close> holds of it, which is false of
  \<open>NaN\<close>. \<open>numbers\<close> makes a dictionary of numbers of a dictionary of integers.
\<close>

fun nonnegative :: "number \<Rightarrow> bool" where
  "nonnegative (Num n) = (0 \<le> n)"
| "nonnegative NaN = False"

definition all_nonnegative :: "VoteCounts \<Rightarrow> bool" where
  "all_nonnegative counts = list_all (\<lambda>(k, v). nonnegative v) counts"

definition numbers :: "(string \<times> int) list \<Rightarrow> VoteCounts" where
  "numbers counts = map (\<lambda>(k, n). (k, Num n)) counts"

section \<open>Properties\<close>

subsection \<open>Replacing the poll\<close>

text \<open>
  C5. Whatever the state was, \<open>POLL_REPLACED\<close> leaves no counts, no percentages, a
  total of zero, no vote of the user and the status idle.
\<close>

theorem poll_replaced_resets:
  "voteCounts (reducer state (POLL_REPLACED p vs)) = [] \<and>
   percentages (reducer state (POLL_REPLACED p vs)) = [] \<and>
   totalVotes (reducer state (POLL_REPLACED p vs)) = Num 0 \<and>
   userVanId (reducer state (POLL_REPLACED p vs)) = None \<and>
   status (reducer state (POLL_REPLACED p vs)) = Idle"
  by simp

subsection \<open>Casting a vote\<close>

text \<open>
  C7. When the procedure call returns no error and its payload carries none,
  \<open>castVote\<close> dispatches \<open>SUBMITTING\<close> and \<open>VOTE_SUCCESS\<close> and nothing else:
  the status becomes voted, the chosen van is recorded as the vote of the user, and
  the counts, the percentages and the total are what they were. No count is
  incremented on this path.
\<close>

theorem castVote_success:
  assumes "res_error res = None" and "\<not> truthy (embedded_error res)"
  shows "castVote vanId res = [SUBMITTING, VOTE_SUCCESS vanId] \<and>
         status (dispatchAll state (castVote vanId res)) = Voted \<and>
         userVanId (dispatchAll state (castVote vanId res)) = Some vanId \<and>
         voteCounts (dispatchAll state (castVote vanId res)) = voteCounts state \<and>
         percentages (dispatchAll state (castVote vanId res)) = percentages state \<and>
         totalVotes (dispatchAll state (castVote vanId res)) = totalVotes state"
proof -
  have acts: "castVote vanId res = [SUBMITTING, VOTE_SUCCESS vanId]"
    using assms by (cases "embedded_error res") (simp_all add: castVote_def)
  show ?thesis
    unfolding acts by (simp add: dispatchAll_def)
qed

theorem castVote_success_witness:
  "res_error \<lparr> res_data = Some \<lparr> payload_error = None \<rparr>, res_error = None \<rparr> = None \<and>
   \<not> truthy (embedded_error \<lparr> res_data = Some \<lparr> payload_error = None \<rparr>, res_error = None \<rparr>) \<and>
   status (dispatchAll (initialState\<lparr> voteCounts := [(''van-a'', Num 2)], totalVotes := Num 2 \<rparr>)
     (castVote ''van-a'' \<lparr> res_data = Some \<lparr> payload_error = None \<rparr>, res_error = None \<rparr>)) = Voted \<and>
   userVanId (dispatchAll (initialState\<lparr> voteCounts := [(''van-a'', Num 2)], totalVotes := Num 2 \<rparr>)
     (castVote ''van-a'' \<lparr> res_data = Some \<lparr> payload_error = None \<rparr>, res_error = None \<rparr>)) = Some ''van-a'' \<and>
   voteCounts (dispatchAll (initialState\<lparr> voteCounts := [(''van-a'', Num 2)], totalVotes := Num 2 \<rparr>)
     (castVote ''van-a'' \<lparr> res_data = Some \<lparr> payload_error = None \<rparr>, res_error = None \<rparr>)) = [(''van-a'', Num 2)] \<and>
   totalVotes (dispatchAll (initialState\<lparr> voteCounts := [(''van-a'', Num 2)], totalVotes := Num 2 \<rparr>)
     (castVote ''van-a'' \<lparr> res_data = Some \<lparr> payload_error = None \<rparr>, res_error = None \<rparr>)) = Num 2"
  using castVote_success [of "\<lparr> res_data = Some \<lparr> payload_error = None \<rparr>, res_error = None \<rparr>"
      "''van-a''" "initialState\<lparr> voteCounts := [(''van-a'', Num 2)], totalVotes := Num 2 \<rparr>"]
  by (simp add: embedded_error_def dispatchAll_def)

text \<open>
  C6. A submission fails either because the call itself returned an error, whose
  message is \<open>m\<close>, or because the call succeeded with a payload that carries the
  error string \<open>m\<close> (a message, so not the empty string, which the test
  \<open>data?.error\<close> takes for no error). In both cases \<open>castVote\<close> dispatches the
  same two actions and the state it leaves is the state before with the status
  error and the message \<open>m\<close>: the two failures differ in nothing else, and the vote
  of the user is untouched.
\<close>

theorem castVote_failure:
  assumes "(\<exists>e. res_error res = Some e \<and> message e = m) \<or>
           (res_error res = None \<and> embedded_error res = Some m \<and> m \<noteq> [])"
  shows "castVote vanId res = [SUBMITTING, VOTE_ERROR m] \<and>
         dispatchAll state (castVote vanId res) = state\<lparr> status := Error, error := Some m \<rparr> \<and>
         userVanId (dispatchAll state (castVote vanId res)) = userVanId state"
proof -
  have acts: "castVote vanId res = [SUBMITTING, VOTE_ERROR m]"
    using assms by (auto simp add: castVote_def)
  show ?thesis
    unfolding acts by (simp add: dispatchAll_def)
qed

theorem castVote_failure_witness:
  "embedded_error \<lparr> res_data = Some \<lparr> payload_error = Some ''already voted'' \<rparr>, res_error = None \<rparr>
     = Some ''already voted'' \<and>
   dispatchAll (initialState\<lparr> userVanId := Some ''van-b'' \<rparr>)
     (castVote ''van-a'' \<lparr> res_data = Some \<lparr> payload_error = Some ''already voted'' \<rparr>, res_error = None \<rparr>)
     = initialState\<lparr> userVanId := Some ''van-b'', status := Error, error := Some ''already voted'' \<rparr> \<and>
   dispatchAll (initialState\<lparr> userVanId := Some ''van-b'' \<rparr>)
     (castVote ''van-a'' \<lparr> res_data = None, res_error = Some \<lparr> message = ''fetch failed'' \<rparr> \<rparr>)
     = initialState\<lparr> userVanId := Some ''van-b'', status := Error, error := Some ''fetch failed'' \<rparr>"
  using castVote_failure [of "\<lparr> res_data = Some \<lparr> payload_error = Some ''already voted'' \<rparr>, res_error = None \<rparr>"
      "''already voted''" "''van-a''" "initialState\<lparr> userVanId := Some ''van-b'' \<rparr>"]
    castVote_failure [of "\<lparr> res_data = None, res_error = Some \<lparr> message = ''fetch failed'' \<rparr> \<rparr>"
      "''fetch failed''" "''van-a''" "initialState\<lparr> userVanId := Some ''van-b'' \<rparr>"]
  by (simp add: embedded_error_def dispatchAll_def)

subsection \<open>Count deltas\<close>

lemma update_absent: "map_of al k = None \<Longrightarrow> AList.update k v al = al @ [(k, v)]"
  by (induction al) (auto split: if_splits)

lemma voteCounts_COUNT_UPDATED:
  "voteCounts (reducer state (COUNT_UPDATED k d)) =
     AList.update k
       (Math_max_zero (js_plus (or_zero (read_property (voteCounts state) k)) (Num (delta_value d))))
       (voteCounts state)"
  by (simp add: Let_def split: prod.splits)

text \<open>
  For a van id that is not the name of a property of \<open>Object.prototype\<close> the
  reducer does what its expression is written for. A missing count is taken for
  zero; a count that is there gets the delta and is floored at zero (below
  \<open>2 ^ 53\<close>, where the sum is exact); counts that are not negative stay so; and
  a removal undoes a creation.
\<close>

lemma count_delta_unknown_id:
  assumes "map_of (voteCounts state) vanId = None"
    and "vanId \<notin> set Object_prototype_keys"
  shows "map_of (voteCounts (reducer state (COUNT_UPDATED vanId Plus1))) vanId = Some (Num 1) \<and>
         map_of (voteCounts (reducer state (COUNT_UPDATED vanId Minus1))) vanId = Some (Num 0)"
  using assms
  by (simp add: voteCounts_COUNT_UPDATED read_property_def AList.update_conv'
      del: reducer.simps)

lemma count_delta_known_id:
  assumes "map_of (voteCounts state) vanId = Some (Num n)" and "\<bar>n\<bar> < 2 ^ 53"
  shows "map_of (voteCounts (reducer state (COUNT_UPDATED vanId delta))) vanId
           = Some (Num (max 0 (n + delta_value delta)))"
  using assms
  by (simp add: voteCounts_COUNT_UPDATED read_property_def AList.update_conv'
      del: reducer.simps)

lemma count_delta_other_ids:
  assumes "k \<noteq> vanId"
  shows "map_of (voteCounts (reducer state (COUNT_UPDATED vanId delta))) k
           = map_of (voteCounts state) k"
  using assms
  by (simp add: voteCounts_COUNT_UPDATED AList.update_conv' del: reducer.simps)

lemma all_nonnegative_update:
  assumes "all_nonnegative al" and "nonnegative v"
  shows "all_nonnegative (AList.update k v al)"
  using assms by (induction al) (auto simp add: all_nonnegative_def)

lemma count_delta_stays_nonnegative:
  assumes "all_nonnegative (voteCounts state)"
    and "vanId \<notin> set Object_prototype_keys"
  shows "all_nonnegative (voteCounts (reducer state (COUNT_UPDATED vanId delta)))"
proof -
  have "nonnegative (Math_max_zero (js_plus (or_zero (read_property (voteCounts state) vanId))
      (Num (delta_value delta))))"
  proof (cases "map_of (voteCounts state) vanId")
    case None
    with assms(2) show ?thesis by (simp add: read_property_def)
  next
    case (Some v)
    then have "(vanId, v) \<in> set (voteCounts state)" by (rule map_of_SomeD)
    with assms(1) have "nonnegative v" by (auto simp add: all_nonnegative_def list_all_iff)
    then show ?thesis using Some by (cases v) (simp_all add: read_property_def)
  qed
  with assms(1) show ?thesis
    unfolding voteCounts_COUNT_UPDATED by (rule all_nonnegative_update)
qed

lemma created_then_removed_known_id:
  assumes "map_of (voteCounts state) vanId = Some (Num n)" and "0 \<le> n" and "n < 2 ^ 53"
  shows "voteCounts (reducer (reducer state (COUNT_UPDATED vanId Plus1)) (COUNT_UPDATED vanId Minus1))
           = voteCounts state"
proof -
  have "voteCounts (reducer (reducer state (COUNT_UPDATED vanId Plus1)) (COUNT_UPDATED vanId Minus1))
      = AList.update vanId (Num n) (voteCounts state)"
    using assms(1,2)
    by (simp add: voteCounts_COUNT_UPDATED read_property_def AList.update_conv' AList.update_last
        del: reducer.simps)
  also have "\<dots> = voteCounts state"
    using assms(1) by (rule AList.update_triv)
  finally show ?thesis .
qed

text \<open>
  C8. The counts are to stay non-negative under every count delta, for any van
  id. The id arrives in the payload of the real-time event as it is. For the id
  \<open>constructor\<close>, which has no entry, \<open>state.voteCounts[vanId]\<close> is the function
  that every object inherits under that name; it is not nullish, so \<open>?? 0\<close>
  keeps it, \<open>+\<close> makes a string of it and \<open>Math.max\<close> makes \<open>NaN\<close> of the
  string. After the counts \<open>{van-a: 2}\<close>, none of them negative, the delta leaves
  the count \<open>NaN\<close> for the id, of which \<open>0 <= n\<close> is false, and with it the total
  \<open>NaN\<close> and the percentage \<open>NaN\<close> for every van.
\<close>

theorem count_delta_constructor_nan:
  "all_nonnegative (voteCounts (dispatchAll initialState
      [POLL_LOADED pollP [vanA], COUNTS_LOADED [(''van-a'', Num 2)]])) \<and>
   voteCounts (dispatchAll initialState
      [POLL_LOADED pollP [vanA], COUNTS_LOADED [(''van-a'', Num 2)],
       COUNT_UPDATED ''constructor'' Plus1]) = [(''van-a'', Num 2), (''constructor'', NaN)] \<and>
   \<not> all_nonnegative (voteCounts (dispatchAll initialState
      [POLL_LOADED pollP [vanA], COUNTS_LOADED [(''van-a'', Num 2)],
       COUNT_UPDATED ''constructor'' Plus1])) \<and>
   voteCounts (dispatchAll initialState
      [POLL_LOADED pollP [vanA], COUNTS_LOADED [(''van-a'', Num 2)],
       COUNT_UPDATED ''constructor'' Minus1]) = [(''van-a'', Num 2), (''constructor'', NaN)] \<and>
   totalVotes (dispatchAll initialState
      [POLL_LOADED pollP [vanA], COUNTS_LOADED [(''van-a'', Num 2)],
       COUNT_UPDATED ''constructor'' Plus1]) = NaN \<and>
   percentages (dispatchAll initialState
      [POLL_LOADED pollP [vanA], COUNTS_LOADED [(''van-a'', Num 2)],
       COUNT_UPDATED ''constructor'' Plus1]) = [(''van-a'', NaN), (''constructor'', NaN)]"
  by code_simp

text \<open>
  C9. A vote-created delta followed by a vote-removed delta for the same van id
  is to give back the count of that id. For the id \<open>constructor\<close> the first delta
  stores \<open>NaN\<close>, as above, and the second reads that entry and stores
  \<open>Math.max(0, NaN - 1)\<close>, which is \<open>NaN\<close> again: the id had no count and has the
  count \<open>NaN\<close> afterwards. The entry of the other van is the same.
\<close>

theorem created_then_removed_constructor_nan:
  "all_nonnegative (voteCounts (initialState\<lparr> voteCounts := [(''van-a'', Num 2)] \<rparr>)) \<and>
   map_of (voteCounts (initialState\<lparr> voteCounts := [(''van-a'', Num 2)] \<rparr>)) ''constructor'' = None \<and>
   map_of (voteCounts (reducer (reducer (initialState\<lparr> voteCounts := [(''van-a'', Num 2)] \<rparr>)
        (COUNT_UPDATED ''constructor'' Plus1)) (COUNT_UPDATED ''constructor'' Minus1)))
     ''constructor'' = Some NaN \<and>
   map_of (voteCounts (reducer (reducer (initialState\<lparr> voteCounts := [(''van-a'', Num 2)] \<rparr>)
        (COUNT_UPDATED ''constructor'' Plus1)) (COUNT_UPDATED ''constructor'' Minus1)))
     ''van-a'' = Some (Num 2)"
  by code_simp

text \<open>
  C10. A count delta for an id without an entry is to take the missing count for
  zero and to add the id with the count 1 or 0. The id \<open>constructor\<close> has no entry
  in the empty counts, the read finds the inherited function and not
  \<open>undefined\<close>, and either delta adds the id with the count \<open>NaN\<close>.
\<close>

theorem unknown_constructor_counts_nan:
  "map_of (voteCounts initialState) ''constructor'' = None \<and>
   read_property (voteCounts initialState) ''constructor'' = Object \<and>
   or_zero (read_property (voteCounts initialState) ''constructor'') = Object \<and>
   voteCounts (reducer initialState (COUNT_UPDATED ''constructor'' Plus1))
     = [(''constructor'', NaN)] \<and>
   voteCounts (reducer initialState (COUNT_UPDATED ''constructor'' Minus1))
     = [(''constructor'', NaN)] \<and>
   map_of (voteCounts (reducer initialState (COUNT_UPDATED ''constructor'' Plus1))) ''constructor''
     \<noteq> Some (Num 1) \<and>
   map_of (voteCounts (reducer initialState (COUNT_UPDATED ''constructor'' Minus1))) ''constructor''
     \<noteq> Some (Num 0)"
  by code_simp

subsection \<open>Changes to the list of vans\<close>

text \<open>
  Whenever a poll is on display and the fetch returns a list, the handler does to
  the state what the hard reset does.
\<close>

lemma onVansChange_resets:
  assumes "poll state = Some p" and "res_data res = Some vs"
  shows "onVansChange state res = reducer state (POLL_REPLACED p vs)"
  using assms by (simp add: onVansChange_def vansChanged_def dispatchAll_def)

text \<open>
  C1. The handler of a change to the vans table is said to replace the list of vans
  and to leave the poll and the counts alone, and its own comment says
  \<open>preserve existing counts\<close>. It dispatches \<open>POLL_REPLACED\<close>, though, the action
  of the hard reset. After the poll and the counts \<open>{van-a: 2}\<close> were loaded, a
  change event whose fetch returns two vans leaves the two vans, no counts and the
  total 0.
\<close>

theorem vans_change_wipes_counts:
  "voteCounts (dispatchAll initialState
      [POLL_LOADED pollP [vanA], COUNTS_LOADED [(''van-a'', Num 2)]]) = [(''van-a'', Num 2)] \<and>
   totalVotes (dispatchAll initialState
      [POLL_LOADED pollP [vanA], COUNTS_LOADED [(''van-a'', Num 2)]]) = Num 2 \<and>
   vans (onVansChange
      (dispatchAll initialState [POLL_LOADED pollP [vanA], COUNTS_LOADED [(''van-a'', Num 2)]])
      \<lparr> res_data = Some [vanA, vanB], res_error = None \<rparr>) = [vanA, vanB] \<and>
   voteCounts (onVansChange
      (dispatchAll initialState [POLL_LOADED pollP [vanA], COUNTS_LOADED [(''van-a'', Num 2)]])
      \<lparr> res_data = Some [vanA, vanB], res_error = None \<rparr>) = [] \<and>
   totalVotes (onVansChange
      (dispatchAll initialState [POLL_LOADED pollP [vanA], COUNTS_LOADED [(''van-a'', Num 2)]])
      \<lparr> res_data = Some [vanA, vanB], res_error = None \<rparr>) = Num 0"
  by (simp add: dispatchAll_def onVansChange_def vansChanged_def initialState_def
      derivePercentages_def Let_def split: prod.splits)

subsection \<open>The bootstrap when the vans cannot be fetched\<close>

text \<open>
  C2, as the claim has it: when the poll was fetched and the fetch of the vans
  fails, the poll is displayed all the same, with no vans and the loading flag
  cleared. The run \<open>runVansFail\<close> is such a run, and after it the state is none of
  that.
\<close>

theorem bootstrap_vans_error_counterexample:
  "res_error (pollRes runVansFail) = None \<and>
   res_data (pollRes runVansFail) = Some pollP \<and>
   res_error (vansRes runVansFail) \<noteq> None \<and>
   \<not> (poll (dispatchAll initialState (bootstrap runVansFail)) = Some pollP \<and>
      \<not> isLoadingPoll (dispatchAll initialState (bootstrap runVansFail)) \<and>
      vans (dispatchAll initialState (bootstrap runVansFail)) = [])"
  by (simp add: runVansFail_def bootstrap_def cancelled_def dispatchAll_def initialState_def)

text \<open>
  C2, amended: when the poll was fetched and the fetch of the vans fails,
  \<open>bootstrap\<close> returns at its guard \<open>if (vansErr)\<close> and dispatches no action at
  all, neither for the poll nor for the counts or the vote of the user: the state
  is the one before the run.
\<close>

theorem bootstrap_vans_error_stops:
  assumes "res_error (pollRes run) = None"
    and "res_data (pollRes run) = Some p"
    and "res_error (vansRes run) \<noteq> None"
  shows "bootstrap run = [] \<and> dispatchAll state (bootstrap run) = state"
proof -
  have "bootstrap run = []"
    using assms by (simp add: bootstrap_def)
  then show ?thesis by (simp add: dispatchAll_def)
qed

theorem bootstrap_vans_error_stops_witness:
  "res_error (pollRes runVansFail) = None \<and>
   res_data (pollRes runVansFail) = Some pollP \<and>
   res_error (vansRes runVansFail) \<noteq> None \<and>
   bootstrap runVansFail = [] \<and>
   dispatchAll initialState (bootstrap runVansFail) = initialState"
proof -
  have h1: "res_error (pollRes runVansFail) = None"
    and h2: "res_data (pollRes runVansFail) = Some pollP"
    and h3: "res_error (vansRes runVansFail) \<noteq> None"
    by (simp_all add: runVansFail_def)
  from bootstrap_vans_error_stops [OF h1 h2 h3, of initialState] h1 h2 h3
  show ?thesis by blast
qed

subsection \<open>Percentages as a projection of the counts\<close>

text \<open>
  The initial state has its derived fields in step with its counts, and every
  action but \<open>NO_ACTIVE_POLL\<close> keeps them so.
\<close>

lemma derived_initialState: "derived_from_counts initialState"
  by (simp add: derived_from_counts_def initialState_def derivePercentages_def)

lemma derived_step:
  assumes "derived_from_counts state" and "a \<noteq> NO_ACTIVE_POLL"
  shows "derived_from_counts (reducer state a)"
  using assms
  by (cases a) (simp_all add: derived_from_counts_def derivePercentages_def Let_def)

text \<open>
  C3. \<open>NO_ACTIVE_POLL\<close> empties \<open>voteCounts\<close> and leaves \<open>percentages\<close> and
  \<open>totalVotes\<close> as they were, where \<open>POLL_REPLACED\<close> resets all three. When a
  poll was announced and one vote counted before the fetch of the active poll came
  back empty, the state has no counts, the percentage 100 for the van and the total
  1; \<open>derivePercentages\<close> of its counts is no percentages and the total 0.
\<close>

theorem no_active_poll_keeps_stale_totals:
  "derived_from_counts (dispatchAll initialState
      [POLL_REPLACED pollP [vanA], COUNT_UPDATED ''van-a'' Plus1]) \<and>
   \<not> derived_from_counts (dispatchAll initialState
      [POLL_REPLACED pollP [vanA], COUNT_UPDATED ''van-a'' Plus1, NO_ACTIVE_POLL]) \<and>
   voteCounts (dispatchAll initialState
      [POLL_REPLACED pollP [vanA], COUNT_UPDATED ''van-a'' Plus1, NO_ACTIVE_POLL]) = [] \<and>
   percentages (dispatchAll initialState
      [POLL_REPLACED pollP [vanA], COUNT_UPDATED ''van-a'' Plus1, NO_ACTIVE_POLL]) = [(''van-a'', Num 100)] \<and>
   totalVotes (dispatchAll initialState
      [POLL_REPLACED pollP [vanA], COUNT_UPDATED ''van-a'' Plus1, NO_ACTIVE_POLL]) = Num 1 \<and>
   derivePercentages (voteCounts (dispatchAll initialState
      [POLL_REPLACED pollP [vanA], COUNT_UPDATED ''van-a'' Plus1, NO_ACTIVE_POLL])) = ([], Num 0)"
  by code_simp

subsection \<open>Rounding to a double\<close>

lemma bit_length_bounds:
  "0 < n \<Longrightarrow> \<exists>k. bit_length n = int k + 1 \<and> 2 ^ k \<le> n \<and> n < 2 ^ (k + 1)"
proof (induction n rule: bit_length.induct)
  case (1 n)
  show ?case
  proof (cases "n = 1")
    case True
    have "bit_length 1 = 1"
      by (simp add: bit_length.simps [of 1] bit_length.simps [of 0])
    with True show ?thesis by (intro exI [of _ 0]) simp
  next
    case False
    with "1.prems" have pos: "0 < n div 2" by simp
    with "1.IH" "1.prems" obtain k
      where k: "bit_length (n div 2) = int k + 1" "2 ^ k \<le> n div 2" "n div 2 < 2 ^ (k + 1)"
      by auto
    have "bit_length n = int (Suc k) + 1"
      using "1.prems" k(1) by (simp add: bit_length.simps [of n])
    moreover have "2 ^ Suc k \<le> n" using k(2) by simp
    moreover have "n < 2 ^ (Suc k + 1)" using k(3) by simp
    ultimately show ?thesis by blast
  qed
qed

lemma ilog2_bounds:
  assumes "0 < x"
  shows "2 powi (ilog2 x) \<le> x \<and> x < 2 powi (ilog2 x + 1)"
proof -
  obtain p q where pq: "quotient_of x = (p, q)" by (cases "quotient_of x")
  then have q0: "0 < q" by (rule quotient_of_denom_pos)
  have x: "x = of_int p / of_int q" using pq by (rule quotient_of_div)
  have p0: "0 < p" using assms q0 unfolding x by (simp add: zero_less_divide_iff)
  from bit_length_bounds [OF p0] obtain kp
    where kp: "bit_length p = int kp + 1" "2 ^ kp \<le> p" "p < 2 ^ (kp + 1)" by blast
  from bit_length_bounds [OF q0] obtain kq
    where kq: "bit_length q = int kq + 1" "2 ^ kq \<le> q" "q < 2 ^ (kq + 1)" by blast
  define d where "d = int kp - int kq"
  have il: "ilog2 x = (if 2 powi d \<le> x then d else d - 1)"
    by (simp add: ilog2_def pq kp(1) kq(1) d_def)
  have P: "(2::rat) ^ kp \<le> of_int p" "(of_int p :: rat) < 2 ^ (kp + 1)"
    using kp(2,3) by (metis of_int_le_iff of_int_numeral of_int_power, metis of_int_less_iff of_int_numeral of_int_power)
  have Q: "(2::rat) ^ kq \<le> of_int q" "(of_int q :: rat) < 2 ^ (kq + 1)"
    using kq(2,3) by (metis of_int_le_iff of_int_numeral of_int_power, metis of_int_less_iff of_int_numeral of_int_power)
  have q0': "(0::rat) < of_int q" using q0 by simp
  have up: "x < 2 powi (d + 1)"
  proof -
    have "x < 2 ^ (kp + 1) / of_int q"
      unfolding x using P(2) q0' by (simp add: divide_strict_right_mono)
    also have "\<dots> \<le> 2 ^ (kp + 1) / 2 ^ kq"
      using Q(1) by (simp add: frac_le)
    also have "\<dots> = 2 powi (d + 1)"
      unfolding d_def by (simp add: power_int_diff power_int_add)
    finally show ?thesis .
  qed
  have low: "2 powi (d - 1) \<le> x"
  proof -
    have "(2::rat) powi (d - 1) = 2 ^ kp / 2 ^ (kq + 1)"
      unfolding d_def by (simp add: power_int_diff)
    also have "\<dots> \<le> 2 ^ kp / of_int q"
      using Q(2) q0' by (simp add: frac_le)
    also have "\<dots> \<le> x"
      unfolding x using P(1) q0' by (simp add: divide_right_mono)
    finally show ?thesis .
  qed
  show ?thesis
    using up low unfolding il by (auto simp add: not_le)
qed

lemma round_half_even_cases:
  "round_half_even y = \<lfloor>y\<rfloor> \<and> y - of_int \<lfloor>y\<rfloor> \<le> 1 / 2 \<or>
   round_half_even y = \<lfloor>y\<rfloor> + 1 \<and> 1 / 2 \<le> y - of_int \<lfloor>y\<rfloor>"
  unfolding round_half_even_def Let_def by auto

lemma round_half_even_error: "\<bar>of_int (round_half_even y) - y\<bar> \<le> 1 / 2"
proof -
  have f: "of_int \<lfloor>y\<rfloor> \<le> y" "y < of_int \<lfloor>y\<rfloor> + 1" by linarith+
  from round_half_even_cases [of y] show ?thesis
  proof
    assume "round_half_even y = \<lfloor>y\<rfloor> \<and> y - of_int \<lfloor>y\<rfloor> \<le> 1 / 2"
    with f show ?thesis by simp
  next
    assume "round_half_even y = \<lfloor>y\<rfloor> + 1 \<and> 1 / 2 \<le> y - of_int \<lfloor>y\<rfloor>"
    with f show ?thesis by simp
  qed
qed

lemma round_half_even_le:
  assumes "y \<le> of_int k"
  shows "round_half_even y \<le> k"
proof -
  have "\<bar>of_int (round_half_even y) - y\<bar> \<le> 1 / 2" by (rule round_half_even_error)
  with assms have "(of_int (round_half_even y) :: rat) < of_int k + 1" by linarith
  then have "(of_int (round_half_even y) :: rat) < of_int (k + 1)" by simp
  then have "round_half_even y < k + 1" by (simp only: of_int_less_iff)
  then show ?thesis by simp
qed

lemma round_half_even_ge:
  assumes "of_int k \<le> y"
  shows "k \<le> round_half_even y"
proof -
  have "\<bar>of_int (round_half_even y) - y\<bar> \<le> 1 / 2" by (rule round_half_even_error)
  with assms have "(of_int k :: rat) - 1 < of_int (round_half_even y)" by linarith
  then have "(of_int (k - 1) :: rat) < of_int (round_half_even y)" by simp
  then have "k - 1 < round_half_even y" by (simp only: of_int_less_iff)
  then show ?thesis by simp
qed

lemma Math_round_error: "\<bar>of_int (Math_round y) - y\<bar> \<le> 1 / 2"
  unfolding Math_round_def by linarith

lemma Math_round_le: "y \<le> of_int k \<Longrightarrow> Math_round y \<le> k"
  unfolding Math_round_def by linarith

lemma Math_round_ge: "of_int k \<le> y \<Longrightarrow> k \<le> Math_round y"
  unfolding Math_round_def by linarith

lemma rnd64_pos:
  assumes "0 < x"
  shows "rnd64 x = of_int (round_half_even (x / 2 powi (ilog2 x - 52))) * 2 powi (ilog2 x - 52)"
  using assms by (simp add: rnd64_def Let_def)

lemma scaled_bounds:
  assumes "0 < x"
  shows "2 ^ 52 \<le> x / 2 powi (ilog2 x - 52)"
proof -
  have "(2::rat) powi (ilog2 x - 52) = 2 powi ilog2 x / 2 ^ 52"
    by (simp add: power_int_diff)
  moreover have "2 powi ilog2 x \<le> x" using ilog2_bounds [OF assms] by simp
  moreover have "(0::rat) < 2 powi ilog2 x" by simp
  ultimately show ?thesis
    by (simp add: pos_le_divide_eq)
qed

lemma rnd64_error:
  assumes "0 < x"
  shows "\<bar>rnd64 x - x\<bar> \<le> x / 2 ^ 53"
proof -
  define s :: rat where "s = 2 powi (ilog2 x - 52)"
  have s0: "0 < s" unfolding s_def by simp
  define y where "y = x / s"
  have xy: "x = y * s" using s0 by (simp add: y_def)
  have y52: "2 ^ 52 \<le> y" unfolding y_def s_def using assms by (rule scaled_bounds)
  have "rnd64 x - x = (of_int (round_half_even y) - y) * s"
    unfolding rnd64_pos [OF assms] y_def s_def [symmetric] using s0 by (simp add: algebra_simps)
  then have "\<bar>rnd64 x - x\<bar> = \<bar>of_int (round_half_even y) - y\<bar> * s"
    using s0 by (simp add: abs_mult)
  also have "\<dots> \<le> 1 / 2 * s"
    using round_half_even_error [of y] s0 by (simp add: mult_right_mono)
  also have "\<dots> \<le> (y / 2 ^ 53) * s"
    using y52 s0 by (simp add: mult_right_mono)
  also have "\<dots> = x / 2 ^ 53" by (simp add: xy)
  finally show ?thesis .
qed

lemma rnd64_nonneg:
  assumes "0 \<le> x"
  shows "0 \<le> rnd64 x"
proof (cases "x = 0")
  case True
  then show ?thesis by (simp add: rnd64_def)
next
  case False
  with assms have x0: "0 < x" by simp
  have "(0::rat) \<le> x / 2 powi (ilog2 x - 52)" using x0 by simp
  then have "0 \<le> round_half_even (x / 2 powi (ilog2 x - 52))"
    using round_half_even_ge [of 0] by simp
  then show ?thesis
    unfolding rnd64_pos [OF x0] by simp
qed

lemma rnd64_le_int:
  assumes "0 < x" and "x \<le> of_int c" and "x < 2 ^ 53"
  shows "rnd64 x \<le> of_int c"
proof -
  have "2 powi ilog2 x \<le> x" using ilog2_bounds [OF assms(1)] by simp
  with assms(3) have "(2::rat) powi ilog2 x < 2 powi 53" by simp
  then have lt: "ilog2 x < 53"
    by (rule power_int_le_imp_less_exp [rotated]) simp_all
  define j where "j = nat (52 - ilog2 x)"
  have j: "ilog2 x - 52 = - int j" using lt by (simp add: j_def)
  have s: "(2::rat) powi (ilog2 x - 52) = 1 / 2 ^ j"
    unfolding j by (simp add: power_int_minus divide_inverse)
  have "x / 2 powi (ilog2 x - 52) = x * 2 ^ j" unfolding s by simp
  also have "\<dots> \<le> of_int c * 2 ^ j" using assms(2) by simp
  also have "\<dots> = of_int (c * 2 ^ j)" by simp
  finally have "round_half_even (x / 2 powi (ilog2 x - 52)) \<le> c * 2 ^ j"
    by (rule round_half_even_le)
  then have "(of_int (round_half_even (x / 2 powi (ilog2 x - 52))) :: rat) \<le> of_int (c * 2 ^ j)"
    by (simp only: of_int_le_iff)
  then have "(of_int (round_half_even (x / 2 powi (ilog2 x - 52))) :: rat) / 2 ^ j \<le> of_int c"
    by (simp add: pos_divide_le_eq)
  then show ?thesis
    unfolding rnd64_pos [OF assms(1)] s by simp
qed


subsection \<open>The aggregator\<close>

lemma percentage_zero_total: "percentage (Num 0) n = Num 0"
  by (cases n) simp_all

lemma percentage_Num:
  "tot \<noteq> 0 \<Longrightarrow>
   percentage (Num tot) (Num n) = Num (Math_round (fmul (fdiv (of_int n) (of_int tot)) 100))"
  by simp

lemma percentage_bounds:
  assumes "0 \<le> n" and "n \<le> tot" and "0 < tot" and "tot < 2 ^ 53"
  shows "0 \<le> Math_round (fmul (fdiv (of_int n) (of_int tot)) 100) \<and>
         Math_round (fmul (fdiv (of_int n) (of_int tot)) 100) \<le> 100 \<and>
         \<bar>rat_of_int (Math_round (fmul (fdiv (of_int n) (of_int tot)) 100))
            - 100 * of_int n / of_int tot\<bar> \<le> 1 / 2 + 1 / 2 ^ 45"
proof (cases "n = 0")
  case True
  have "Math_round 0 = 0" by (simp add: Math_round_def floor_eq_iff)
  then have "Math_round (fmul (fdiv (of_int 0) (of_int tot)) 100) = 0"
    by (simp add: fdiv_def fmul_def rnd64_def)
  with True show ?thesis by simp
next
  case False
  with assms(1) have n0: "0 < n" by simp
  define r :: rat where "r = of_int n / of_int tot"
  define q where "q = rnd64 r"
  define y where "y = rnd64 (q * 100)"
  have p: "Math_round (fmul (fdiv (of_int n) (of_int tot)) 100) = Math_round y"
    by (simp add: fdiv_def fmul_def y_def q_def r_def)
  define e :: rat where "e = 1 / 2 ^ 53"
  have e0: "0 < e" and e1: "e < 1" by (simp_all add: e_def)
  have r0: "0 < r" using n0 assms(3) by (simp add: r_def)
  have r1: "r \<le> 1" using assms(2,3) by (simp add: r_def)
  have "\<bar>q - r\<bar> \<le> r / 2 ^ 53" unfolding q_def using r0 by (rule rnd64_error)
  then have qe: "\<bar>q - r\<bar> \<le> r * e" by (simp add: e_def)
  have re: "r * e \<le> e" using r1 e0 by simp
  have "r * e < r * 1" using r0 e1 by (simp only: mult_less_cancel_left_pos)
  then have q0: "0 < q" using qe by (simp add: abs_le_iff)
  have q1: "q \<le> 1"
    using rnd64_le_int [of r 1] r0 r1 by (simp add: q_def)
  have "\<bar>y - q * 100\<bar> \<le> q * 100 / 2 ^ 53"
    unfolding y_def using q0 by (intro rnd64_error) simp
  then have ye: "\<bar>y - q * 100\<bar> \<le> 100 * (q * e)" by (simp add: e_def)
  have qe1: "q * e \<le> e" using q1 e0 by simp
  have y100: "y \<le> 100"
    using rnd64_le_int [of "q * 100" 100] q0 q1 by (simp add: y_def)
  have y0: "0 \<le> y" unfolding y_def using q0 by (intro rnd64_nonneg) simp
  have pe: "\<bar>of_int (Math_round y) - y\<bar> \<le> 1 / 2" by (rule Math_round_error)
  have lo: "0 \<le> Math_round y" using Math_round_ge [of 0 y] y0 by simp
  have hi: "Math_round y \<le> 100" using Math_round_le [of y 100] y100 by simp
  have "\<bar>of_int (Math_round y) - 100 * r\<bar> \<le> 1 / 2 + 200 * e"
    using pe ye qe qe1 re by (simp only: abs_le_iff) linarith
  also have "200 * e \<le> 1 / 2 ^ 45" by (simp add: e_def)
  finally have "\<bar>rat_of_int (Math_round y) - 100 * of_int n / of_int tot\<bar> \<le> 1 / 2 + 1 / 2 ^ 45"
    by (simp add: r_def)
  with lo hi show ?thesis by (simp add: p)
qed

lemma foldl_plus:
  "foldl (\<lambda>s n. num_plus s n) (Num a) (map Num xs) = Num (a + sum_list xs)"
  by (induction xs arbitrary: a) simp_all

lemma snd_numbers: "map snd (numbers counts) = map Num (map snd counts)"
  by (simp add: numbers_def case_prod_unfold comp_def)

lemma fst_numbers: "map fst (numbers counts) = map fst counts"
  by (simp add: numbers_def case_prod_unfold comp_def)

lemma sum_numbers:
  "foldl (\<lambda>s n. num_plus s n) (Num 0) (map snd (numbers counts)) = Num (sum_list (map snd counts))"
proof -
  have "foldl (\<lambda>s n. num_plus s n) (Num 0) (map Num (map snd counts))
      = Num (0 + sum_list (map snd counts))"
    by (rule foldl_plus)
  then show ?thesis by (simp only: snd_numbers) simp
qed

lemma derive_total: "snd (derivePercentages (numbers counts)) = Num (sum_list (map snd counts))"
  unfolding derivePercentages_def Let_def sum_numbers by simp

lemma foldl_update_fresh:
  assumes "distinct (map fst xs)" and "fst ` set acc \<inter> fst ` set xs = {}"
  shows "foldl (\<lambda>p (k, n). AList.update k (f n) p) acc xs = acc @ map (\<lambda>(k, n). (k, f n)) xs"
  using assms
proof (induction xs arbitrary: acc)
  case Nil
  then show ?case by simp
next
  case (Cons x xs)
  obtain k n where x: "x = (k, n)" by (cases x)
  have fresh: "map_of acc k = None"
    using Cons.prems(2) by (auto simp add: x map_of_eq_None_iff)
  have "fst ` set (acc @ [(k, f n)]) \<inter> fst ` set xs = {}"
    using Cons.prems by (auto simp add: x)
  moreover have "distinct (map fst xs)" using Cons.prems(1) by simp
  ultimately have "foldl (\<lambda>p (k, n). AList.update k (f n) p) (acc @ [(k, f n)]) xs
      = (acc @ [(k, f n)]) @ map (\<lambda>(k, n). (k, f n)) xs"
    by (rule Cons.IH [rotated])
  then show ?case
    by (simp add: x update_absent [OF fresh])
qed

lemma derive_percentages:
  assumes "distinct (map fst counts)"
  shows "fst (derivePercentages (numbers counts))
     = map (\<lambda>(k, n). (k, percentage (Num (sum_list (map snd counts))) (Num n))) counts"
proof -
  let ?f = "percentage (Num (sum_list (map snd counts)))"
  have "fst (derivePercentages (numbers counts))
      = foldl (\<lambda>p (k, n). AList.update k (?f n) p) [] (numbers counts)"
    unfolding derivePercentages_def Let_def sum_numbers by simp
  also have "\<dots> = [] @ map (\<lambda>(k, n). (k, ?f n)) (numbers counts)"
    by (rule foldl_update_fresh) (simp_all add: fst_numbers assms)
  also have "\<dots> = map (\<lambda>(k, n). (k, ?f (Num n))) counts"
    by (simp add: numbers_def case_prod_unfold comp_def)
  finally show ?thesis .
qed

lemma member_le_sum_list_int:
  assumes "\<forall>n \<in> set xs. 0 \<le> n" and "n \<in> set xs"
  shows "n \<le> sum_list (xs :: int list)"
  using assms
proof (induction xs)
  case Nil
  then show ?case by simp
next
  case (Cons a xs)
  have "0 \<le> sum_list xs" using Cons.prems(1) by (simp add: sum_list_nonneg)
  then show ?case using Cons by auto
qed

lemma map_of_mapped:
  assumes "distinct (map fst xs)" and "(k, n) \<in> set xs"
  shows "map_of (map (\<lambda>(k, n). (k, f n)) xs) k = Some (f n)"
  using assms
proof (induction xs)
  case Nil
  then show ?case by simp
next
  case (Cons x xs)
  obtain k' n' where x: "x = (k', n')" by (cases x)
  show ?case
  proof (cases "k' = k")
    case True
    have "k \<notin> fst ` set xs" using Cons.prems(1) by (simp add: x True)
    then have "(k, n) \<notin> set xs" by force
    with Cons.prems(2) have "n' = n" by (simp add: x True)
    then show ?thesis by (simp add: x True)
  next
    case False
    with Cons.prems(2) have "(k, n) \<in> set xs" by (simp add: x)
    moreover have "distinct (map fst xs)" using Cons.prems(1) by simp
    ultimately have "map_of (map (\<lambda>(k, n). (k, f n)) xs) k = Some (f n)"
      by (rule Cons.IH [rotated])
    then show ?thesis using False by (simp add: x)
  qed
qed

lemma derive_23_17:
  "derivePercentages [(''van-a'', Num 23), (''van-b'', Num 17)]
     = ([(''van-a'', Num 57), (''van-b'', Num 43)], Num 40)"
  by code_simp

lemma derive_2_1:
  "derivePercentages [(''van-a'', Num 2), (''van-b'', Num 1)]
     = ([(''van-a'', Num 67), (''van-b'', Num 33)], Num 3)"
  by code_simp

text \<open>
  C4, as the claim has it: every percentage is \<open>round(100 \<times> count / total)\<close>.
  With 23 votes of 40 that is the rounding of 57.5, which is 58, in exact
  arithmetic and in doubles alike (2300 and 57.5 are doubles). The code divides
  first: \<open>23 / 40\<close> is the double next to 0.575, just below it, the product with
  100 is the double 57.49999999999999 and \<open>Math.round\<close> makes 57 of it.
\<close>

theorem derivePercentages_round_counterexample:
  "snd (derivePercentages [(''van-a'', Num 23), (''van-b'', Num 17)]) = Num 40 \<and>
   map_of (fst (derivePercentages [(''van-a'', Num 23), (''van-b'', Num 17)])) ''van-a''
     = Some (Num 57) \<and>
   Math_round (100 * of_int 23 / of_int 40) = 58 \<and>
   Math_round (fdiv (fmul 100 (of_int 23)) (of_int 40)) = 58 \<and>
   map_of (fst (derivePercentages [(''van-a'', Num 23), (''van-b'', Num 17)])) ''van-a''
     \<noteq> Some (Num (Math_round (100 * of_int 23 / of_int 40)))"
proof -
  have r: "Math_round (100 * of_int 23 / of_int 40) = 58"
    by (simp add: Math_round_def floor_eq_iff)
  have d: "Math_round (fdiv (fmul 100 (of_int 23)) (of_int 40)) = 58"
    by code_simp
  show ?thesis
    unfolding derive_23_17 using r d by simp
qed

text \<open>
  C4, amended. For a dictionary of counts that are not negative and whose sum is
  below \<open>2 ^ 53\<close> (so that the numbers of JavaScript hold them exactly),
  \<open>derivePercentages\<close> returns the sum of the counts as the total and one
  percentage for each van of the dictionary. Each percentage is an integer from 0
  to 100. It is 0 when the total is 0; otherwise it is \<open>Math.round\<close> of the
  double product \<open>(count / total) * 100\<close>, which is within a half and
  \<open>2 ^ -45\<close> of the exact \<open>100 \<times> count / total\<close>: the rounding of the exact
  value, or its neighbour when the exact value is that close to a tie.
\<close>

theorem derivePercentages_spec:
  assumes "distinct (map fst counts)"
    and "\<forall>(k, n) \<in> set counts. 0 \<le> n"
    and "sum_list (map snd counts) < 2 ^ 53"
  shows "snd (derivePercentages (numbers counts)) = Num (sum_list (map snd counts)) \<and>
         map fst (fst (derivePercentages (numbers counts))) = map fst counts \<and>
         (\<forall>(k, n) \<in> set counts.
            \<exists>p. map_of (fst (derivePercentages (numbers counts))) k = Some (Num p) \<and>
                0 \<le> p \<and> p \<le> 100 \<and>
                (sum_list (map snd counts) = 0 \<longrightarrow> p = 0) \<and>
                (0 < sum_list (map snd counts) \<longrightarrow>
                   p = Math_round (fmul (fdiv (of_int n) (of_int (sum_list (map snd counts)))) 100) \<and>
                   \<bar>rat_of_int p - 100 * of_int n / of_int (sum_list (map snd counts))\<bar>
                     \<le> 1 / 2 + 1 / 2 ^ 45))"
proof -
  let ?tot = "sum_list (map snd counts)"
  let ?P = "fst (derivePercentages (numbers counts))"
  have P: "?P = map (\<lambda>(k, n). (k, percentage (Num ?tot) (Num n))) counts"
    using assms(1) by (rule derive_percentages)
  have keys: "map fst ?P = map fst counts"
    unfolding P by (simp add: case_prod_unfold comp_def)
  have each: "\<exists>p. map_of ?P k = Some (Num p) \<and>
                0 \<le> p \<and> p \<le> 100 \<and>
                (?tot = 0 \<longrightarrow> p = 0) \<and>
                (0 < ?tot \<longrightarrow>
                   p = Math_round (fmul (fdiv (of_int n) (of_int ?tot)) 100) \<and>
                   \<bar>rat_of_int p - 100 * of_int n / of_int ?tot\<bar> \<le> 1 / 2 + 1 / 2 ^ 45)"
    if kn: "(k, n) \<in> set counts" for k n
  proof -
    have look: "map_of ?P k = Some (percentage (Num ?tot) (Num n))"
      unfolding P using assms(1) kn
      by (rule map_of_mapped [where f = "\<lambda>n. percentage (Num ?tot) (Num n)"])
    have n0: "0 \<le> n" using assms(2) kn by auto
    have "n \<in> set (map snd counts)" using kn by force
    moreover have "\<forall>m \<in> set (map snd counts). 0 \<le> m" using assms(2) by auto
    ultimately have nt: "n \<le> ?tot" by (rule member_le_sum_list_int [rotated])
    have tot0: "0 \<le> ?tot" using n0 nt by simp
    show ?thesis
    proof (cases "?tot = 0")
      case True
      then show ?thesis using look by (simp add: percentage_zero_total)
    next
      case False
      with tot0 have pos: "0 < ?tot" by simp
      from percentage_bounds [OF n0 nt pos assms(3)] look pos show ?thesis
        by (simp add: percentage_Num del: percentage.simps)
    qed
  qed
  show ?thesis
    using derive_total [of counts] keys each by blast
qed

theorem derivePercentages_spec_witness:
  "distinct (map fst [(''van-a'', 2::int), (''van-b'', 1)]) \<and>
   list_all (\<lambda>(k, n). 0 \<le> n) [(''van-a'', 2::int), (''van-b'', 1)] \<and>
   sum_list (map snd [(''van-a'', 2::int), (''van-b'', 1)]) < 2 ^ 53 \<and>
   numbers [(''van-a'', 2), (''van-b'', 1)] = [(''van-a'', Num 2), (''van-b'', Num 1)] \<and>
   snd (derivePercentages (numbers [(''van-a'', 2), (''van-b'', 1)])) = Num 3 \<and>
   map_of (fst (derivePercentages (numbers [(''van-a'', 2), (''van-b'', 1)]))) ''van-a''
     = Some (Num 67) \<and>
   map_of (fst (derivePercentages (numbers [(''van-a'', 2), (''van-b'', 1)]))) ''van-b''
     = Some (Num 33)"
  using derivePercentages_spec [of "[(''van-a'', 2), (''van-b'', 1)]"]
  by (simp add: numbers_def derive_2_1)

end
